theory Spec2Isabelle
  imports Main
begin

section \<open>Exit status (options.c)\<close>

text \<open>
  Modelled from the spec: the enumeration \<open>exit_status_t\<close> is declared in a header that
  is not among the sources at hand. The spec lists the exit codes: 0 success, 1 generic
  failure, 2 parse/init, 3 I/O, 4 network, 5 TLS, 6 auth, 7 protocol, 8 remote server
  error. The constructors carry the names that options.c and wget.c use.
\<close>

datatype exit_status_t =
    WG_EXIT_STATUS_NO_ERROR
  | WG_EXIT_STATUS_GENERIC
  | WG_EXIT_STATUS_PARSE_INIT
  | WG_EXIT_STATUS_IO
  | WG_EXIT_STATUS_NETWORK
  | WG_EXIT_STATUS_TLS
  | WG_EXIT_STATUS_AUTH
  | WG_EXIT_STATUS_PROTOCOL
  | WG_EXIT_STATUS_REMOTE

fun exit_code :: "exit_status_t \<Rightarrow> int" where
  "exit_code WG_EXIT_STATUS_NO_ERROR = 0"
| "exit_code WG_EXIT_STATUS_GENERIC = 1"
| "exit_code WG_EXIT_STATUS_PARSE_INIT = 2"
| "exit_code WG_EXIT_STATUS_IO = 3"
| "exit_code WG_EXIT_STATUS_NETWORK = 4"
| "exit_code WG_EXIT_STATUS_TLS = 5"
| "exit_code WG_EXIT_STATUS_AUTH = 6"
| "exit_code WG_EXIT_STATUS_PROTOCOL = 7"
| "exit_code WG_EXIT_STATUS_REMOTE = 8"

text \<open>
  \<open>set_exit_status\<close> updates the file-static \<open>exit_status\<close>; the static is passed in
  and the new value returned.
  \<^verbatim>\<open>
  if (exit_status) {
      if ((int) status < exit_status) exit_status = status;
  } else
      exit_status = status;
  \<close>
\<close>

definition set_exit_status :: "exit_status_t \<Rightarrow> int \<Rightarrow> int" where
  "set_exit_status status exit_status =
     (if exit_status \<noteq> 0
      then (if exit_code status < exit_status then exit_code status else exit_status)
      else exit_code status)"

text \<open>The static starts at 0; a run of calls, first call first.\<close>

definition exit_status_after :: "exit_status_t list \<Rightarrow> int" where
  "exit_status_after xs = foldl (\<lambda>s x. set_exit_status x s) 0 xs"

text \<open>
  The spec's reading of the result, kept apart from the code: the smallest nonzero code
  of the sequence, 0 when there is none.
\<close>

definition min_nonzero_code :: "exit_status_t list \<Rightarrow> int" where
  "min_nonzero_code xs =
     (let cs = filter (\<lambda>c. c \<noteq> 0) (map exit_code xs)
      in if cs = [] then 0 else fold min (tl cs) (hd cs))"

section \<open>ASCII case-insensitive comparison\<close>

text \<open>
  Modelled from the spec: \<open>wget_strcasecmp_ascii\<close> and \<open>c_tolower\<close> belong to the
  library part of the project and are not among the sources at hand. The spec calls
  option values and scheme names case-insensitive; the callers in wget.c and options.c
  test \<open>!wget_strcasecmp_ascii(a, b)\<close> for "a equals b up to ASCII case", so the result
  is 0 exactly for such a match; otherwise it is nonzero, here the sign of the first
  difference (the shorter string first). Both arguments are C strings that are not NULL.
\<close>

definition c_tolower :: "char \<Rightarrow> char" where
  "c_tolower c =
     (case map_of (zip ''ABCDEFGHIJKLMNOPQRSTUVWXYZ'' ''abcdefghijklmnopqrstuvwxyz'') c of
        Some l \<Rightarrow> l
      | None \<Rightarrow> c)"

fun wget_strcasecmp_ascii :: "string \<Rightarrow> string \<Rightarrow> int" where
  "wget_strcasecmp_ascii [] [] = 0"
| "wget_strcasecmp_ascii [] (b # bs) = - 1"
| "wget_strcasecmp_ascii (a # as) [] = 1"
| "wget_strcasecmp_ascii (a # as) (b # bs) =
     (if c_tolower a = c_tolower b then wget_strcasecmp_ascii as bs
      else if (of_char (c_tolower a) :: nat) < of_char (c_tolower b) then - 1 else 1)"

section \<open>Boolean options (options.c, \<open>parse_bool\<close>)\<close>

text \<open>
  \<open>opt->var\<close> points to a \<open>char\<close> of the configuration or is NULL: \<open>None\<close> is the
  NULL pointer, \<open>Some b\<close> the value the pointed variable holds. \<open>val\<close> is a C string
  or NULL. \<open>invert\<close> is the flag \<open>set_long_option\<close> sets to 1 for a name with the
  prefix \<open>no-\<close> and to 0 otherwise. The result is the return code, the variable after
  the call and the diagnostics printed with \<open>error_printf\<close>.
\<close>

datatype diagnostic = Invalid_boolean_value string

definition parse_bool ::
  "bool option \<Rightarrow> string option \<Rightarrow> bool \<Rightarrow> int \<times> bool option \<times> diagnostic list" where
  "parse_bool var val invert =
     (case var of
        None \<Rightarrow> (0, None, [])
      | Some cur \<Rightarrow>
          (case val of
             None \<Rightarrow> (0, Some (\<not> invert), [])
           | Some v \<Rightarrow>
               if v = ''1'' \<or> wget_strcasecmp_ascii v ''y'' = 0
                  \<or> wget_strcasecmp_ascii v ''yes'' = 0 \<or> wget_strcasecmp_ascii v ''on'' = 0
               then (0, Some (\<not> invert), [])
               else if v = [] \<or> v = ''0'' \<or> wget_strcasecmp_ascii v ''n'' = 0
                  \<or> wget_strcasecmp_ascii v ''no'' = 0 \<or> wget_strcasecmp_ascii v ''off'' = 0
               then (0, Some invert, [])
               else (- 1, Some cur, [Invalid_boolean_value v])))"

section \<open>Choice of the authentication challenge (wget.c, \<open>_add_authorize_header\<close>)\<close>

record wget_http_challenge_t =
  auth_scheme :: string
  params :: "(string \<times> string) list"

text \<open>
  The \<^verbatim>\<open>for\<close> loop over the challenge vector, with \<open>selected_challenge\<close> as the
  accumulator. A nonzero result of \<open>wget_strcasecmp_ascii\<close> is C's "true".
  \<^verbatim>\<open>
  if (wget_strcasecmp_ascii(challenge->auth_scheme, "digest")) {
      selected_challenge = challenge;
      break;
  }
  else if (wget_strcasecmp_ascii(challenge->auth_scheme, "basic")) {
      if (!selected_challenge)
          selected_challenge = challenge;
  }
  \<close>
\<close>

fun select_challenge ::
  "wget_http_challenge_t list \<Rightarrow> wget_http_challenge_t option \<Rightarrow> wget_http_challenge_t option" where
  "select_challenge [] selected = selected"
| "select_challenge (challenge # rest) selected =
     (if wget_strcasecmp_ascii (auth_scheme challenge) ''digest'' \<noteq> 0 then Some challenge
      else if wget_strcasecmp_ascii (auth_scheme challenge) ''basic'' \<noteq> 0
      then select_challenge rest (if selected = None then Some challenge else selected)
      else select_challenge rest selected)"

text \<open>
  The call of \<open>wget_http_add_credentials\<close> the function ends with, as the tuple of its
  arguments (challenge, user name, password, proxied); \<open>None\<close> when no header is added.
  \<open>netrc_file\<close> tells whether \<open>config.netrc_file\<close> is set, \<open>netrc_host\<close> and
  \<open>netrc_default\<close> are the results of the two lookups in the netrc database.
\<close>

definition add_authorize_header ::
  "wget_http_challenge_t list \<Rightarrow> string option \<Rightarrow> string option \<Rightarrow> bool \<Rightarrow> bool \<Rightarrow>
   (string option \<times> string option) option \<Rightarrow> (string option \<times> string option) option \<Rightarrow>
   (wget_http_challenge_t \<times> string option \<times> string option \<times> bool) option" where
  "add_authorize_header challenges username password proxied netrc_file netrc_host netrc_default =
     (case select_challenge challenges None of
        None \<Rightarrow> None
      | Some selected_challenge \<Rightarrow>
          if username \<noteq> None then Some (selected_challenge, username, password, proxied)
          else if netrc_file then
            (case (if netrc_host \<noteq> None then netrc_host else netrc_default) of
               Some (login, pw) \<Rightarrow> Some (selected_challenge, login, pw, proxied)
             | None \<Rightarrow> Some (selected_challenge, username, password, proxied))
          else Some (selected_challenge, username, password, proxied))"

section \<open>C integer arithmetic\<close>

text \<open>
  C's \<open>/\<close> and \<open>%\<close> truncate towards zero, unlike \<open>div\<close> and \<open>mod\<close> on \<open>int\<close>.
  \<open>wrap_int32\<close> is the value an \<open>int\<close> of 32 bits holds after an operation whose
  mathematical result is \<open>x\<close>.
\<close>

definition c_div :: "int \<Rightarrow> int \<Rightarrow> int" where
  "c_div a b = sgn a * sgn b * (\<bar>a\<bar> div \<bar>b\<bar>)"

definition c_rem :: "int \<Rightarrow> int \<Rightarrow> int" where
  "c_rem a b = sgn a * (\<bar>a\<bar> mod \<bar>b\<bar>)"

definition wrap_int32 :: "int \<Rightarrow> int" where
  "wrap_int32 x = (x + 2 ^ 31) mod 2 ^ 32 - 2 ^ 31"

section \<open>Pacing between requests (wget.c, \<open>downloader_thread\<close>)\<close>

text \<open>
  The sleep a worker makes before it sends a request, in milliseconds; \<open>None\<close> when it
  does not sleep. \<open>wait\<close> and \<open>random_wait\<close> are the fields of \<open>config\<close>
  (\<open>parse_timeout\<close> stores \<open>wait\<close> as an \<open>int\<close> of milliseconds), \<open>r\<close> is the value
  \<open>rand()\<close> returns.
  \<^verbatim>\<open>
  if (config.wait) {
      if (config.random_wait)
          wget_millisleep(rand() % config.wait + config.wait / 2);
      else
          wget_millisleep(config.wait);
  \<close>
\<close>

definition pacing_sleep :: "int \<Rightarrow> bool \<Rightarrow> int \<Rightarrow> int option" where
  "pacing_sleep wait random_wait r =
     (if wait \<noteq> 0
      then (if random_wait then Some (wrap_int32 (c_rem r wait + c_div wait 2)) else Some wait)
      else None)"

section \<open>Data of the retrieval engine (wget.c)\<close>

text \<open>
  The C structures are declared in headers that are not among the sources at hand. The
  records below hold the fields that the modelled functions of wget.c read or write,
  under the names the code uses; a field whose C name is also a constant of HOL carries
  the name of its structure in front (\<open>piece_length\<close> for \<open>piece.length\<close>,
  \<open>part_id\<close> for \<open>part->id\<close>, \<open>metalink_size\<close> for \<open>metalink->size\<close>). A pointer
  that may be NULL is an \<open>option\<close>. Integers of the C code are \<open>int\<close> here; where
  a conversion to an unsigned type or a 32-bit sum matters it is written out.
\<close>

datatype iri_scheme = WGET_IRI_SCHEME_HTTP | WGET_IRI_SCHEME_HTTPS | Other_scheme string

record wget_iri_t =
  uri :: string
  scheme :: iri_scheme
  host :: "string option"
  path :: "string option"
  dirlen :: nat

record wget_metalink_piece_t =
  piece_length :: int
  piece_position :: int

record wget_metalink_mirror_t =
  mirror_location :: string
  mirror_iri :: wget_iri_t

record wget_metalink_t =
  metalink_name :: "string option"
  metalink_size :: int
  pieces :: "wget_metalink_piece_t list"
  mirrors :: "wget_metalink_mirror_t list"

record PART =
  part_id :: int
  part_position :: int
  part_length :: int
  part_done :: bool
  part_inuse :: bool

record JOB =
  iri :: wget_iri_t
  original_url :: "wget_iri_t option"
  referer :: "wget_iri_t option"
  local_filename :: "string option"
  redirection_level :: int
  level :: int
  head_first :: bool
  sitemap :: bool
  robotstxt :: bool
  ignore_patterns :: bool
  requested_by_user :: bool
  inuse :: bool
  challenges :: "wget_http_challenge_t list option"
  challenges_alloc :: bool
  proxy_challenges :: "wget_http_challenge_t list option"
  auth_failure_count :: int
  metalink :: "wget_metalink_t option"
  parts :: "PART list"
  part :: "PART option"

record wget_http_response_t =
  code :: int
  resp_challenges :: "wget_http_challenge_t list option"
  location :: "string option"
  links :: bool
  digests :: bool
  content_type :: "string option"
  content_length :: int
  etag :: "string option"

text \<open>The fields of the global \<open>config\<close> that the modelled functions consult.\<close>

record config_t =
  max_redirect :: int
  tries :: int
  chunk_size :: int
  spider :: bool
  recursive :: bool
  cut_url_get_vars :: bool
  https_only :: bool
  span_hosts :: bool
  parent :: bool
  robots :: bool
  filter_urls :: bool
  trust_server_names :: bool
  auth_no_challenge :: bool
  domains :: "string list option"
  exclude_domains :: "string list option"
  accept_patterns :: "string list option"
  reject_patterns :: "string list option"
  accept_regex :: "string option"
  reject_regex :: "string option"
  output_document :: "string option"
  default_challenges :: "wget_http_challenge_t list option"

datatype message =
    Cannot_resolve_URI string
  | URL_not_followed string string
  | Failed_to_get_from_hosts "string option"
  | Not_requesting string string
  | Not_scanning_known_ETag string

text \<open>
  The process-wide state the modelled functions change: the exit status of options.c,
  the blacklist, the \<open>parents\<close> vector, the set of ETags seen, the jobs handed to
  \<open>host_add_job\<close> and the robots.txt IRIs handed to \<open>host_add_robotstxt_job\<close> (both
  in the order of the calls), and the messages printed.
\<close>

record engine =
  exit_status :: int
  blacklist :: "string set"
  parents :: "wget_iri_t list"
  etags :: "string set"
  queue :: "JOB list"
  robot_jobs :: "wget_iri_t list"
  messages :: "message list"

datatype url_flag = URL_FLG_REDIRECTION | URL_FLG_SITEMAP

record plugin_db_forward_url_verdict =
  reject :: bool
  accept :: bool
  alt_iri :: "wget_iri_t option"
  alt_local_filename :: "string option"

datatype host_lookup = Host_new | Host_known "string list option" | Host_missing

text \<open>
  Functions that wget.c calls and that live in files not at hand are parameters of the
  model, gathered in one record: the IRI parser, the plugin hook, the pattern and regex
  matchers, the name of the local file, the resolution of a relative reference, the
  host registry (\<open>host_add\<close> followed by \<open>host_get\<close>: a new entry, a known entry with
  its robots paths if it has any, or no entry), and the verdict of \<open>job_validate_file\<close>
  on the local file of a metalink (true: the file is there already and complete).
\<close>

record helpers =
  wget_iri_parse :: "string \<Rightarrow> wget_iri_t option"
  wget_iri_parse_base :: "wget_iri_t \<Rightarrow> string \<Rightarrow> wget_iri_t"
  wget_iri_relative_to_abs :: "wget_iri_t \<Rightarrow> string \<Rightarrow> string"
  plugin_db_forward_url :: "wget_iri_t \<Rightarrow> plugin_db_forward_url_verdict"
  in_host_pattern_list :: "string list \<Rightarrow> string \<Rightarrow> bool"
  in_pattern_list :: "string list \<Rightarrow> string \<Rightarrow> bool"
  regex_match :: "string \<Rightarrow> string \<Rightarrow> bool"
  get_local_filename :: "wget_iri_t \<Rightarrow> string option"
  host_registry :: "wget_iri_t \<Rightarrow> host_lookup"
  local_file_complete :: "wget_metalink_t \<Rightarrow> bool"

text \<open>
  Modelled from the spec: \<open>blacklist_add\<close> and \<open>job_init\<close> are defined in files not at
  hand. The spec's blacklist is a set of URI strings with the operation
  \<open>admit(uri)\<close>, which inserts the key and returns true iff it was not present before.
  A job is created for one IRI with every other field zero, as the spec's job starts
  with no referer, levels 0, no parts, no challenges and \<open>inuse\<close> false.
\<close>

definition blacklist_add :: "wget_iri_t \<Rightarrow> engine \<Rightarrow> bool \<times> engine" where
  "blacklist_add i st =
     (if uri i \<in> blacklist st then (False, st)
      else (True, st\<lparr>blacklist := insert (uri i) (blacklist st)\<rparr>))"

definition job_init :: "wget_iri_t \<Rightarrow> JOB" where
  "job_init i =
     \<lparr>iri = i, original_url = None, referer = None, local_filename = None,
      redirection_level = 0, level = 0, head_first = False, sitemap = False,
      robotstxt = False, ignore_patterns = False, requested_by_user = False,
      inuse = False, challenges = None, challenges_alloc = False,
      proxy_challenges = None, auth_failure_count = 0, metalink = None,
      parts = [], part = None\<rparr>"

text \<open>
  The initial value of \<open>config\<close> in options.c, for the fields of the record: the
  initialiser sets \<open>max_redirect = 20\<close>, \<open>tries = 20\<close>, \<open>parent = 1\<close> and
  \<open>robots = 1\<close> and leaves the others 0 or NULL.
\<close>

definition config_defaults :: config_t where
  "config_defaults =
     \<lparr>max_redirect = 20, tries = 20, chunk_size = 0, spider = False, recursive = False,
      cut_url_get_vars = False, https_only = False, span_hosts = False, parent = True,
      robots = True, filter_urls = False, trust_server_names = False,
      auth_no_challenge = False, domains = None, exclude_domains = None,
      accept_patterns = None, reject_patterns = None, accept_regex = None,
      reject_regex = None, output_document = None, default_challenges = None\<rparr>"

text \<open>The state at program start: nothing seen, nothing queued, exit status 0.\<close>

definition engine_start :: engine where
  "engine_start =
     \<lparr>exit_status = 0, blacklist = {}, parents = [], etags = {}, queue = [],
      robot_jobs = [], messages = []\<rparr>"

section \<open>Adding a URL to the queue (wget.c, \<open>add_url\<close>)\<close>

text \<open>
  A \<open>char *\<close> that may be NULL, read as a string: \<open>iri->path ? iri->path : ""\<close>. The
  comparison \<open>strncmp(a, b, n) == 0\<close> of two strings is \<open>take n a = take n b\<close>.
\<close>

definition c_str :: "string option \<Rightarrow> string" where
  "c_str s = (case s of None \<Rightarrow> [] | Some t \<Rightarrow> t)"

text \<open>
  The test inside the loop over \<open>parents\<close>:
  \<^verbatim>\<open>
  if (!wget_strcmp(parent->host, iri->host)) {
      if (!parent->dirlen || !strncmp(parent->path, iri->path, parent->dirlen)) {
  \<close>
  and the test inside the loop over the robots paths of a known host:
  \<^verbatim>\<open>
  if (path->len && !strncmp(path->p + 1, iri->path ? iri->path : "", path->len - 1)) {
  \<close>
\<close>

definition parent_matches :: "wget_iri_t \<Rightarrow> wget_iri_t \<Rightarrow> bool" where
  "parent_matches i p \<longleftrightarrow>
     host p = host i \<and>
     (dirlen p = 0 \<or> take (dirlen p) (c_str (path p)) = take (dirlen p) (c_str (path i)))"

definition robots_path_matches :: "wget_iri_t \<Rightarrow> string \<Rightarrow> bool" where
  "robots_path_matches i pth \<longleftrightarrow>
     pth \<noteq> [] \<and> take (length pth - 1) (tl pth) = take (length pth - 1) (c_str (path i))"

text \<open>
  The last part of \<open>add_url\<close>, from \<open>job_init\<close> up to \<open>host_add_job\<close>: the new job for
  the IRI \<open>i\<close> under the plugin verdict \<open>v\<close>.
\<close>

definition add_url_new_job ::
  "config_t \<Rightarrow> helpers \<Rightarrow> JOB option \<Rightarrow> url_flag set \<Rightarrow> wget_iri_t \<Rightarrow>
   plugin_db_forward_url_verdict \<Rightarrow> JOB" where
  "add_url_new_job cfg h job flags i v =
     (let new_job = job_init i;
          new_job =
            (if output_document cfg = None then
               (if alt_local_filename v \<noteq> None
                then new_job\<lparr>local_filename := alt_local_filename v\<rparr>
                else if URL_FLG_REDIRECTION \<notin> flags \<or> trust_server_names cfg \<or> job = None
                then new_job\<lparr>local_filename := get_local_filename h (iri new_job)\<rparr>
                else new_job\<lparr>local_filename := (case job of None \<Rightarrow> None | Some j \<Rightarrow> local_filename j)\<rparr>)
             else new_job);
          new_job =
            (case job of
               None \<Rightarrow> new_job
             | Some j \<Rightarrow>
                 if URL_FLG_REDIRECTION \<in> flags
                 then new_job\<lparr>redirection_level := redirection_level j + 1,
                                referer := referer j, original_url := Some (iri j)\<rparr>
                 else new_job\<lparr>level := level j + 1, referer := Some (iri j)\<rparr>);
          u = uri (iri new_job);
          new_job =
            (if accept v then new_job\<lparr>ignore_patterns := True\<rparr>
             else if recursive cfg then
               (let new_job =
                      (if (case accept_patterns cfg of None \<Rightarrow> False
                           | Some ps \<Rightarrow> \<not> in_pattern_list h ps u)
                          \<or> (case accept_regex cfg of None \<Rightarrow> False
                              | Some r \<Rightarrow> \<not> regex_match h u r)
                       then new_job\<lparr>head_first := True\<rparr> else new_job)
                in if (case reject_patterns cfg of None \<Rightarrow> False
                       | Some ps \<Rightarrow> in_pattern_list h ps u)
                      \<or> (case reject_regex cfg of None \<Rightarrow> False
                          | Some r \<Rightarrow> regex_match h u r)
                   then new_job\<lparr>head_first := True\<rparr> else new_job)
             else new_job);
          new_job =
            (if spider cfg \<or> chunk_size cfg \<noteq> 0 then new_job\<lparr>head_first := True\<rparr>
             else new_job);
          new_job =
            (if auth_no_challenge cfg then new_job\<lparr>challenges := default_challenges cfg\<rparr>
             else new_job)
      in if URL_FLG_SITEMAP \<in> flags then new_job\<lparr>sitemap := True\<rparr> else new_job)"

text \<open>
  The URL filters of a recursive run, the last check before the new job:
  \<^verbatim>\<open>
  if (config.recursive && config.filter_urls) {
      if ((config.accept_patterns && !in_pattern_list(config.accept_patterns, iri->uri))
              || (config.accept_regex && !regex_match(iri->uri, config.accept_regex))) {
          ...
          return;
      }
      if ((config.reject_patterns && in_pattern_list(config.reject_patterns, iri->uri))
              || (config.reject_regex && regex_match(iri->uri, config.reject_regex))) {
          ...
          return;
      }
  }
  \<close>
\<close>

definition add_url_filtered ::
  "config_t \<Rightarrow> helpers \<Rightarrow> JOB option \<Rightarrow> url_flag set \<Rightarrow> wget_iri_t \<Rightarrow>
   plugin_db_forward_url_verdict \<Rightarrow> engine \<Rightarrow> engine" where
  "add_url_filtered cfg h job flags i v st =
     (if recursive cfg \<and> filter_urls cfg \<and>
         ((case accept_patterns cfg of None \<Rightarrow> False
           | Some ps \<Rightarrow> \<not> in_pattern_list h ps (uri i))
          \<or> (case accept_regex cfg of None \<Rightarrow> False
              | Some r \<Rightarrow> \<not> regex_match h (uri i) r))
      then st\<lparr>messages := messages st
             @ [Not_requesting (uri i) ''doesn't match accept pattern'']\<rparr>
      else if recursive cfg \<and> filter_urls cfg \<and>
         ((case reject_patterns cfg of None \<Rightarrow> False
           | Some ps \<Rightarrow> in_pattern_list h ps (uri i))
          \<or> (case reject_regex cfg of None \<Rightarrow> False
              | Some r \<Rightarrow> regex_match h (uri i) r))
      then st\<lparr>messages := messages st
             @ [Not_requesting (uri i) ''matches reject pattern'']\<rparr>
      else st\<lparr>queue := queue st @ [add_url_new_job cfg h job flags i v]\<rparr>)"

text \<open>
  The host registry: a new host gets its robots.txt job first when the run is recursive
  and honours robots.txt, a known host has its robots rules applied, and a host that can
  neither be added nor found ends the function with an error message.
\<close>

definition add_url_host ::
  "config_t \<Rightarrow> helpers \<Rightarrow> JOB option \<Rightarrow> url_flag set \<Rightarrow> wget_iri_t \<Rightarrow>
   plugin_db_forward_url_verdict \<Rightarrow> engine \<Rightarrow> engine" where
  "add_url_host cfg h job flags i v st =
     (case host_registry h i of
        Host_new \<Rightarrow>
          if recursive cfg \<and> robots cfg then
            (let robot_iri = wget_iri_parse_base h i ''/robots.txt''
             in case blacklist_add robot_iri st of
                  (True, st) \<Rightarrow>
                    add_url_filtered cfg h job flags i v
                      (st\<lparr>robot_jobs := robot_jobs st @ [robot_iri]\<rparr>)
                | (False, st) \<Rightarrow> add_url_filtered cfg h job flags i v st)
          else add_url_filtered cfg h job flags i v st
      | Host_known robots_paths \<Rightarrow>
          if (case robots_paths of None \<Rightarrow> False
              | Some ps \<Rightarrow> path i \<noteq> None \<and> list_ex (robots_path_matches i) ps)
          then st\<lparr>messages := messages st
                 @ [URL_not_followed (uri i) ''disallowed by robots.txt'']\<rparr>
          else add_url_filtered cfg h job flags i v st
      | Host_missing \<Rightarrow>
          st\<lparr>messages := messages st @ [Failed_to_get_from_hosts (host i)]\<rparr>)"

text \<open>
  The reason for which a recursive run does not follow a URL to its host:
  \<^verbatim>\<open>
  if (!iri->host)
      reason = _("missing ip/host/domain");
  else if (!config.span_hosts && config.domains
           && !in_host_pattern_list(config.domains, iri->host))
      reason = _("no host-spanning requested");
  else if (config.span_hosts && config.exclude_domains
           && in_host_pattern_list(config.exclude_domains, iri->host))
      reason = _("domain explicitly excluded");
  \<close>
\<close>

definition host_reason :: "config_t \<Rightarrow> helpers \<Rightarrow> wget_iri_t \<Rightarrow> string option" where
  "host_reason cfg h i =
     (case host i of
        None \<Rightarrow> Some ''missing ip/host/domain''
      | Some hn \<Rightarrow>
          if \<not> span_hosts cfg \<and>
             (case domains cfg of None \<Rightarrow> False
              | Some ds \<Rightarrow> \<not> in_host_pattern_list h ds hn)
          then Some ''no host-spanning requested''
          else if span_hosts cfg \<and>
             (case exclude_domains cfg of None \<Rightarrow> False
              | Some ds \<Rightarrow> in_host_pattern_list h ds hn)
          then Some ''domain explicitly excluded''
          else None)"

text \<open>
  The part of \<open>add_url\<close> under \<open>downloader_mutex\<close>: the blacklist, the host rules and
  the parent rule of a recursive run, then the host registry.
\<close>

definition add_url_locked ::
  "config_t \<Rightarrow> helpers \<Rightarrow> JOB option \<Rightarrow> string \<Rightarrow> url_flag set \<Rightarrow> wget_iri_t \<Rightarrow>
   plugin_db_forward_url_verdict \<Rightarrow> engine \<Rightarrow> engine" where
  "add_url_locked cfg h job url flags i v st =
     (case blacklist_add i st of
        (False, st) \<Rightarrow> st
      | (True, st) \<Rightarrow>
          (case (if recursive cfg then host_reason cfg h i else None) of
             Some r \<Rightarrow> st\<lparr>messages := messages st @ [URL_not_followed (uri i) r]\<rparr>
           | None \<Rightarrow>
               if recursive cfg \<and> \<not> parent cfg \<and> \<not> list_ex (parent_matches i) (parents st)
               then st\<lparr>messages := messages st
                      @ [URL_not_followed url ''parent ascending not allowed'']\<rparr>
               else add_url_host cfg h job flags i v st))"

text \<open>
  The first part after the redirect limit, up to the lock: the IRI is parsed (without
  the query when \<open>cut_url_get_vars\<close> is set), shown to the plugins, and its scheme is
  checked.
\<close>

definition add_url_parsed ::
  "config_t \<Rightarrow> helpers \<Rightarrow> JOB option \<Rightarrow> string \<Rightarrow> url_flag set \<Rightarrow> engine \<Rightarrow> engine" where
  "add_url_parsed cfg h job url flags st =
     (case wget_iri_parse h
             (if cut_url_get_vars cfg then takeWhile (\<lambda>c. c \<noteq> CHR ''?'') url else url) of
        None \<Rightarrow> st\<lparr>messages := messages st @ [Cannot_resolve_URI url]\<rparr>
      | Some i \<Rightarrow>
          (let v = plugin_db_forward_url h i
           in if reject v then st
              else
                (let i = (case alt_iri v of None \<Rightarrow> i | Some a \<Rightarrow> a);
                     v = v\<lparr>alt_iri := None\<rparr>
                 in if scheme i \<noteq> WGET_IRI_SCHEME_HTTP \<and> scheme i \<noteq> WGET_IRI_SCHEME_HTTPS
                    then st\<lparr>messages := messages st
                           @ [URL_not_followed url ''unsupported scheme'']\<rparr>
                    else if https_only cfg \<and> scheme i \<noteq> WGET_IRI_SCHEME_HTTPS
                    then st\<lparr>messages := messages st
                           @ [URL_not_followed url ''https-only requested'']\<rparr>
                    else add_url_locked cfg h job url flags i v st)))"

text \<open>
  The function itself. \<open>job\<close> is the job whose document or response named the URL
  (NULL for none), \<open>flags\<close> the set of flag bits. The redirect limit comes first and
  returns without a message:
  \<^verbatim>\<open>
  if (flags & URL_FLG_REDIRECTION) { // redirect
      if (config.max_redirect && job && job->redirection_level >= config.max_redirect) {
          return;
      }
  }
  \<close>
\<close>

definition add_url ::
  "config_t \<Rightarrow> helpers \<Rightarrow> JOB option \<Rightarrow> string \<Rightarrow> url_flag set \<Rightarrow> engine \<Rightarrow> engine" where
  "add_url cfg h job url flags st =
     (if URL_FLG_REDIRECTION \<in> flags \<and> max_redirect cfg \<noteq> 0 \<and>
         (case job of None \<Rightarrow> False | Some j \<Rightarrow> redirection_level j \<ge> max_redirect cfg)
      then st
      else add_url_parsed cfg h job url flags st)"

section \<open>The response header (wget.c, \<open>process_response_header\<close>)\<close>

text \<open>
  The result is the return value (0: go on with the response, 1: stop), the response
  (its challenges move to the job), the job and the state. The function also prints the
  status line, closes a connection that is not kept alive, and feeds the statistics, the
  cookie store and the HSTS and HPKP databases; none of these touches the job, the exit
  status or the queue, and they are not part of the model. The status code is an
  \<open>int\<close>, so \<open>resp->code / 100\<close> is \<open>c_div\<close>.
\<close>

definition process_response_header ::
  "config_t \<Rightarrow> helpers \<Rightarrow> wget_http_response_t \<Rightarrow> JOB \<Rightarrow> engine \<Rightarrow>
   int \<times> wget_http_response_t \<times> JOB \<times> engine" where
  "process_response_header cfg h resp job st =
     (let st =
            (if c_div (code resp) 100 = 4 \<and> code resp \<noteq> 416 then
               (if head_first job
                then st\<lparr>exit_status := set_exit_status WG_EXIT_STATUS_REMOTE (exit_status st)\<rparr>
                else if code resp = 404 \<and> \<not> robotstxt job
                then st\<lparr>exit_status := set_exit_status WG_EXIT_STATUS_REMOTE (exit_status st)\<rparr>
                else st)
             else st)
      in if code resp = 302 \<and> links resp \<and> digests resp then (0, resp, job, st)
         else if code resp = 401 then
           (let job = job\<lparr>auth_failure_count := auth_failure_count job + 1\<rparr>
            in if auth_failure_count job > 1 \<or> resp_challenges resp = None
               then (1, resp, job,
                     st\<lparr>exit_status := set_exit_status WG_EXIT_STATUS_AUTH (exit_status st)\<rparr>)
               else (1, resp\<lparr>resp_challenges := None\<rparr>,
                     job\<lparr>challenges := resp_challenges resp, challenges_alloc := True,
                         inuse := False\<rparr>,
                     st))
         else if code resp = 407 then
           (if proxy_challenges job \<noteq> None \<or> resp_challenges resp = None
            then (1, resp, job,
                  st\<lparr>exit_status := set_exit_status WG_EXIT_STATUS_AUTH (exit_status st)\<rparr>)
            else (1, resp\<lparr>resp_challenges := None\<rparr>,
                  job\<lparr>proxy_challenges := resp_challenges resp, inuse := False\<rparr>,
                  st))
         else if c_div (code resp) 100 = 2 \<or> c_div (code resp) 100 \<ge> 4 \<or> code resp = 304
         then (0, resp, job, st)
         else
           (case location resp of
              None \<Rightarrow> (0, resp, job, st)
            | Some loc \<Rightarrow>
                (0, resp, job,
                 add_url cfg h (Some job) (wget_iri_relative_to_abs h (iri job) loc)
                   {URL_FLG_REDIRECTION} st)))"

section \<open>The response to a HEAD request (wget.c, \<open>process_head_response\<close>)\<close>






section \<open>The Range header of a part (wget.c, \<open>http_create_request\<close>)\<close>


section \<open>The worker receiving a response (wget.c, \<open>downloader_thread\<close>)\<close>








section \<open>Configuration files and \<open>include\<close> (options.c, \<open>_read_config\<close>)\<close>

text \<open>
  A configuration file as the loop of \<open>_read_config\<close> sees it after it has trimmed the
  lines, dropped comments and empty lines, joined continued lines and called
  \<open>_parse_option\<close>: a list of parsed lines, and whether the file ends inside a continued
  line (\<open>append\<close> still set at the end of the file). \<open>_parse_option\<close> returns 1 for
  \<open>name = value\<close>, 2 for a statement \<open>name value\<close> or a name alone, and 0 for a line
  without a name, which the loop ignores.
\<close>

datatype config_line =
    Option_assignment string string
  | Statement string string
  | Unparsed

record config_file =
  file_lines :: "config_line list"
  unfinished_line :: bool

text \<open>
  What the function asks of its environment: \<open>fopen\<close> (NULL for a file that cannot be
  opened), \<open>glob\<close> (the paths found when it returns 0), and the return value of
  \<open>set_long_option\<close> for a name, a value and the flag \<open>parsing_config\<close>.
\<close>

record config_env =
  fopen :: "string \<Rightarrow> config_file option"
  glob :: "string \<Rightarrow> string list option"
  set_long_option :: "string \<Rightarrow> string option \<Rightarrow> bool \<Rightarrow> int"

text \<open>
  What a run leaves behind: the error messages, the \<open>debug_printf("Reading ...")\<close> of
  each file opened, here with the value of \<open>level\<close> at that moment, and the calls of
  \<open>set_long_option\<close>.
\<close>

datatype config_event =
    Config_file_recursion string
  | Failed_to_open string
  | Reading string nat
  | Set_long_option string "string option"
  | Failed_to_parse_last_line string

text \<open>
  \<open>read_config_file\<close> is \<open>_read_config\<close>. The static \<open>level\<close> is passed in as \<open>lvl\<close> and
  handed back: the result is the return value, the value of \<open>level\<close> when the function
  returns, and the events. The function increments \<open>level\<close> on entry and decrements it
  before each of its \<^verbatim>\<open>return\<close>s.
  \<^verbatim>\<open>
  if (++level > 20) {
      error_printf(_("Config file recursion detected in %s\n"), cfgfile);
      level--;
      return -2;
  }
  \<close>
  \<open>read_config_globbed\<close> is the \<^verbatim>\<open>for\<close> loop over the paths of \<open>glob\<close>, which skips
  directories (marked with a final \<open>/\<close>), and \<open>read_config_lines\<close> is the \<^verbatim>\<open>while\<close>
  loop over the lines; both stop as soon as \<open>ret\<close> is not 0.
\<close>

function (sequential)
  read_config_file :: "config_env \<Rightarrow> nat \<Rightarrow> string \<Rightarrow> bool \<Rightarrow> int \<times> nat \<times> config_event list"
  and read_config_globbed :: "config_env \<Rightarrow> nat \<Rightarrow> string list \<Rightarrow> int \<times> nat \<times> config_event list"
  and read_config_lines :: "config_env \<Rightarrow> nat \<Rightarrow> config_line list \<Rightarrow> int \<times> nat \<times> config_event list"
where
  "read_config_file env lvl cfgfile expand =
     (if lvl + 1 > 20 then (- 2, lvl + 1 - 1, [Config_file_recursion cfgfile])
      else if expand then
        (case glob env cfgfile of
           Some paths \<Rightarrow>
             (case read_config_globbed env (lvl + 1) paths of
                (ret, lvl', evs) \<Rightarrow> (ret, lvl' - 1, evs))
         | None \<Rightarrow>
             (case read_config_file env (lvl + 1) cfgfile False of
                (ret, lvl', evs) \<Rightarrow> (ret, lvl' - 1, evs)))
      else
        (case fopen env cfgfile of
           None \<Rightarrow> (- 1, lvl + 1 - 1, [Failed_to_open cfgfile])
         | Some f \<Rightarrow>
             (case read_config_lines env (lvl + 1) (file_lines f) of
                (ret, lvl', evs) \<Rightarrow>
                  if ret = 0 \<and> unfinished_line f
                  then (- 4, lvl' - 1,
                        Reading cfgfile (lvl + 1) # evs @ [Failed_to_parse_last_line cfgfile])
                  else (ret, lvl' - 1, Reading cfgfile (lvl + 1) # evs))))"
| "read_config_globbed env lvl [] = (0, lvl, [])"
| "read_config_globbed env lvl (p # ps) =
     (case (if p \<noteq> [] \<and> last p = CHR ''/'' then (0, lvl, [])
            else read_config_file env lvl p False) of
        (ret, lvl', evs) \<Rightarrow>
          if ret = 0
          then (case read_config_globbed env lvl' ps of
                  (ret', lvl'', evs') \<Rightarrow> (ret', lvl'', evs @ evs'))
          else (ret, lvl', evs))"
| "read_config_lines env lvl [] = (0, lvl, [])"
| "read_config_lines env lvl (l # ls) =
     (case (case l of
              Option_assignment name val \<Rightarrow>
                (let rc = set_long_option env name (Some val) True
                 in (if rc < 0 then rc else 0, lvl, [Set_long_option name (Some val)]))
            | Statement name val \<Rightarrow>
                if name = ''include'' then read_config_file env lvl val True
                else
                  (let rc = set_long_option env name None False
                   in (if rc < 0 then rc else 0, lvl, [Set_long_option name None]))
            | Unparsed \<Rightarrow> (0, lvl, [])) of
        (ret, lvl', evs) \<Rightarrow>
          if ret = 0
          then (case read_config_lines env lvl' ls of
                  (ret', lvl'', evs') \<Rightarrow> (ret', lvl'', evs @ evs'))
          else (ret, lvl', evs))"
  by pat_completeness auto

text \<open>
  Where the recursion is defined, every call hands \<open>level\<close> back as it found it. The
  loops go on with the value that a nested call hands back, so the proof that the
  recursion ends needs this fact: with it, \<open>21 - level\<close> decreases at every nested call
  of \<open>_read_config\<close>, and the rest of the list decreases inside a loop.
\<close>

lemma read_config_level_restored:
  "read_config_file_read_config_globbed_read_config_lines_dom (Inl (env, lvl, cfgfile, expand)) \<Longrightarrow>
     fst (snd (read_config_file env lvl cfgfile expand)) = lvl"
  "read_config_file_read_config_globbed_read_config_lines_dom (Inr (Inl (env, lvl, ps))) \<Longrightarrow>
     fst (snd (read_config_globbed env lvl ps)) = lvl"
  "read_config_file_read_config_globbed_read_config_lines_dom (Inr (Inr (env, lvl, ls))) \<Longrightarrow>
     fst (snd (read_config_lines env lvl ls)) = lvl"
proof (induct env lvl cfgfile expand and env lvl ps and env lvl ls
    rule: read_config_file_read_config_globbed_read_config_lines.pinduct)
  case (1 env lvl cfgfile expand)
  then show ?case
    by (auto simp: read_config_file.psimps split: option.splits prod.splits)
next
  case (2 env lvl)
  then show ?case by (simp add: read_config_globbed.psimps)
next
  case (3 env lvl p ps)
  obtain ret lvl' evs where r:
    "(if p \<noteq> [] \<and> last p = CHR ''/'' then (0, lvl, [])
      else read_config_file env lvl p False) = (ret, lvl', evs)"
    by (cases "if p \<noteq> [] \<and> last p = CHR ''/'' then (0, lvl, [])
      else read_config_file env lvl p False") auto
  have same: "lvl' = lvl"
  proof (cases "p \<noteq> [] \<and> last p = CHR ''/''")
    case True
    then show ?thesis using r by auto
  next
    case False
    then have "read_config_file env lvl p False = (ret, lvl', evs)"
      using r by (auto split: if_splits)
    then show ?thesis
      using "3.hyps"(2) [OF False] by simp
  qed
  show ?case
  proof (cases "ret = 0")
    case True
    obtain ret' lvl'' evs' where r': "read_config_globbed env lvl' ps = (ret', lvl'', evs')"
      by (cases "read_config_globbed env lvl' ps") auto
    have "fst (snd (read_config_globbed env lvl' ps)) = lvl'"
      by (rule "3.hyps"(3) [OF r [symmetric] refl True])
    then have "lvl'' = lvl"
      using r' same by simp
    then show ?thesis
      using r r' True "3.hyps"(1)
      by (simp add: read_config_globbed.psimps)
  next
    case False
    then show ?thesis
      using r same "3.hyps"(1)
      by (simp add: read_config_globbed.psimps)
  qed
next
  case (4 env lvl)
  then show ?case by (simp add: read_config_lines.psimps)
next
  case (5 env lvl l ls)
  define first where "first =
    (case l of
       Option_assignment name val \<Rightarrow>
         (let rc = set_long_option env name (Some val) True
          in (if rc < 0 then rc else 0, lvl, [Set_long_option name (Some val)]))
     | Statement name val \<Rightarrow>
         if name = ''include'' then read_config_file env lvl val True
         else
           (let rc = set_long_option env name None False
            in (if rc < 0 then rc else 0, lvl, [Set_long_option name None]))
     | Unparsed \<Rightarrow> (0, lvl, []))"
  obtain ret lvl' evs where r: "first = (ret, lvl', evs)"
    by (cases first) auto
  have same: "lvl' = lvl"
  proof (cases l)
    case (Option_assignment name val)
    then show ?thesis using r by (auto simp: first_def Let_def)
  next
    case (Statement name val)
    show ?thesis
    proof (cases "name = ''include''")
      case True
      then show ?thesis
        using "5.hyps"(2) [OF Statement True] r Statement by (simp add: first_def)
    next
      case False
      then show ?thesis using r Statement by (auto simp: first_def Let_def)
    qed
  next
    case Unparsed
    then show ?thesis using r by (auto simp: first_def)
  qed
  show ?case
  proof (cases "ret = 0")
    case True
    obtain ret' lvl'' evs' where r': "read_config_lines env lvl' ls = (ret', lvl'', evs')"
      by (cases "read_config_lines env lvl' ls") auto
    have "fst (snd (read_config_lines env lvl' ls)) = lvl'"
      by (rule "5.hyps"(3) [OF r [unfolded first_def, symmetric] refl True])
    then have "lvl'' = lvl"
      using r' same by simp
    then show ?thesis
      using r r' True "5.hyps"(1)
      by (simp add: read_config_lines.psimps first_def [symmetric])
  next
    case False
    then show ?thesis
      using r same "5.hyps"(1)
      by (simp add: read_config_lines.psimps first_def [symmetric])
  qed
qed

termination read_config_file
proof (relation "inv_image (less_than <*lex*> less_than)
        (\<lambda>x. case x of
           Inl (env, lvl, cfgfile, expand) \<Rightarrow> (21 - lvl, 0)
         | Inr (Inl (env, lvl, ps)) \<Rightarrow> (21 - lvl, Suc (length ps))
         | Inr (Inr (env, lvl, ls)) \<Rightarrow> (21 - lvl, Suc (length ls)))", goal_cases)
  case 1
  show ?case by (intro wf_inv_image wf_lex_prod wf_less_than)
next
  case (2 env lvl cfgfile expand)
  then show ?case by simp
next
  case (3 env lvl cfgfile expand paths)
  then show ?case by simp
next
  case (4 env lvl cfgfile expand f)
  then show ?case by simp
next
  case (5 env lvl p ps)
  then show ?case by simp
next
  case (6 env lvl p ps x y xa ya)
  have "xa = lvl"
  proof (cases "p \<noteq> [] \<and> last p = CHR ''/''")
    case True
    then show ?thesis using 6(1,2) by auto
  next
    case False
    then have "read_config_file env lvl p False = (x, xa, ya)"
      using 6(1,2) by (auto split: if_splits)
    then show ?thesis
      using read_config_level_restored(1) [OF 6(4) [OF False]] by simp
  qed
  then show ?case by simp
next
  case (7 env lvl l ls name val)
  then show ?case by simp
next
  case (8 env lvl l ls x y xa ya)
  have "xa = lvl"
  proof (cases l)
    case (Option_assignment name val)
    then show ?thesis using 8(1,2) by (auto simp: Let_def)
  next
    case (Statement name val)
    show ?thesis
    proof (cases "name = ''include''")
      case True
      then have "read_config_file env lvl val True = (x, xa, ya)"
        using 8(1,2) Statement by auto
      then show ?thesis
        using read_config_level_restored(1) [OF 8(4) [OF Statement True]] by simp
    next
      case False
      then show ?thesis using 8(1,2) Statement by (auto simp: Let_def)
    qed
  next
    case Unparsed
    then show ?thesis using 8(1,2) by auto
  qed
  then show ?case by simp
qed

text \<open>
  \<open>read_config\<close>: the files of \<open>config.config_files\<close> in turn, each with expansion, until
  one of them fails. \<open>level\<close> is 0 when the program starts.
\<close>

fun read_config :: "config_env \<Rightarrow> nat \<Rightarrow> string list \<Rightarrow> int \<times> nat \<times> config_event list" where
  "read_config env lvl [] = (0, lvl, [])"
| "read_config env lvl (cfgfile # rest) =
     (case read_config_file env lvl cfgfile True of
        (ret, lvl', evs) \<Rightarrow>
          if ret = 0
          then (case read_config env lvl' rest of
                  (ret', lvl'', evs') \<Rightarrow> (ret', lvl'', evs @ evs'))
          else (ret, lvl', evs))"

section \<open>Values for the closed examples\<close>

text \<open>
  Helpers of a plain run against one host \<open>h\<close>: every URL parses to an http IRI on
  \<open>h\<close>, a Location is resolved against \<open>http://h\<close>, no plugin interferes, the host is
  known and has no robots rules, no pattern matches, and no local file exists.
\<close>

definition example_iri :: "string \<Rightarrow> wget_iri_t" where
  "example_iri u =
     \<lparr>uri = u, scheme = WGET_IRI_SCHEME_HTTP, host = Some ''h'',
      path = Some (drop 9 u), dirlen = 0\<rparr>"

definition example_helpers :: helpers where
  "example_helpers =
     \<lparr>wget_iri_parse = (\<lambda>u. Some (example_iri u)),
      wget_iri_parse_base = (\<lambda>i p. example_iri (''http://h'' @ p)),
      wget_iri_relative_to_abs = (\<lambda>i loc. ''http://h'' @ loc),
      plugin_db_forward_url =
        (\<lambda>i. \<lparr>reject = False, accept = False, alt_iri = None, alt_local_filename = None\<rparr>),
      in_host_pattern_list = (\<lambda>ps s. False),
      in_pattern_list = (\<lambda>ps s. False),
      regex_match = (\<lambda>s r. False),
      get_local_filename = (\<lambda>i. Some (c_str (path i))),
      host_registry = (\<lambda>i. Host_known None),
      local_file_complete = (\<lambda>m. False)\<rparr>"

text \<open>
  A job for \<open>http://h/a\<close> that a worker holds (\<open>inuse\<close> is set when a worker picks the
  job up), and the state in which its URL is on the blacklist.
\<close>

definition example_job :: JOB where
  "example_job = (job_init (example_iri ''http://h/a''))\<lparr>inuse := True\<rparr>"

definition example_engine :: engine where
  "example_engine = engine_start\<lparr>blacklist := {''http://h/a''}\<rparr>"

definition example_response :: "int \<Rightarrow> wget_http_response_t" where
  "example_response c =
     \<lparr>code = c, resp_challenges = None, location = None, links = False, digests = False,
      content_type = None, content_length = 0, etag = None\<rparr>"


text \<open>
  A configuration file \<open>a\<close> that sets an option and then includes itself; \<open>glob\<close> finds
  every path as it is, and \<open>set_long_option\<close> reports one argument used.
\<close>

definition example_config_env :: config_env where
  "example_config_env =
     \<lparr>fopen = (\<lambda>p. if p = ''a''
                    then Some \<lparr>file_lines = [Option_assignment ''quiet'' ''on'',
                                              Statement ''include'' ''a''],
                               unfinished_line = False\<rparr>
                    else None),
      glob = (\<lambda>p. Some [p]),
      set_long_option = (\<lambda>name val parsing_config. 1)\<rparr>"

section \<open>Properties of the exit status\<close>

lemma exit_code_nonneg: "0 \<le> exit_code x"
  by (cases x) simp_all

lemma exit_code_zero_iff: "exit_code x = 0 \<longleftrightarrow> x = WG_EXIT_STATUS_NO_ERROR"
  by (cases x) simp_all

lemma set_exit_status_pos:
  "0 < s \<Longrightarrow> x \<noteq> WG_EXIT_STATUS_NO_ERROR \<Longrightarrow>
     set_exit_status x s = min s (exit_code x) \<and> 0 < set_exit_status x s"
  using exit_code_nonneg [of x] exit_code_zero_iff [of x]
  by (auto simp: set_exit_status_def min_def)

lemma foldl_set_exit_status_pos:
  "0 < s \<Longrightarrow> WG_EXIT_STATUS_NO_ERROR \<notin> set xs \<Longrightarrow>
     foldl (\<lambda>s x. set_exit_status x s) s xs = fold min (map exit_code xs) s"
proof (induction xs arbitrary: s)
  case Nil
  then show ?case by simp
next
  case (Cons x xs)
  have x: "x \<noteq> WG_EXIT_STATUS_NO_ERROR" and rest: "WG_EXIT_STATUS_NO_ERROR \<notin> set xs"
    using Cons.prems(2) by auto
  note st = set_exit_status_pos [OF Cons.prems(1) x]
  have "foldl (\<lambda>s x. set_exit_status x s) (set_exit_status x s) xs =
          fold min (map exit_code xs) (set_exit_status x s)"
    by (rule Cons.IH [OF conjunct2 [OF st] rest])
  then show ?case
    using st by (simp add: min.commute)
qed

lemma filter_nonzero_codes:
  "WG_EXIT_STATUS_NO_ERROR \<notin> set xs \<Longrightarrow>
     filter (\<lambda>c. c \<noteq> 0) (map exit_code xs) = map exit_code xs"
  by (induction xs) (auto simp: exit_code_zero_iff)

lemma exit_status_after_errors:
  assumes "WG_EXIT_STATUS_NO_ERROR \<notin> set xs"
  shows "exit_status_after xs = min_nonzero_code xs"
proof (cases xs)
  case Nil
  then show ?thesis by (simp add: exit_status_after_def min_nonzero_code_def)
next
  case (Cons x ys)
  have x: "x \<noteq> WG_EXIT_STATUS_NO_ERROR" and rest: "WG_EXIT_STATUS_NO_ERROR \<notin> set ys"
    using assms Cons by auto
  have first: "set_exit_status x 0 = exit_code x"
    by (simp add: set_exit_status_def)
  have pos: "0 < exit_code x"
    using x exit_code_nonneg [of x] exit_code_zero_iff [of x] by simp
  have "exit_status_after xs = fold min (map exit_code ys) (exit_code x)"
    using foldl_set_exit_status_pos [OF pos rest] by (simp add: exit_status_after_def Cons first)
  moreover have "min_nonzero_code xs = fold min (map exit_code ys) (exit_code x)"
    using filter_nonzero_codes [OF assms] by (simp add: min_nonzero_code_def Cons)
  ultimately show ?thesis by simp
qed

lemma min_nonzero_code_errors:
  assumes "WG_EXIT_STATUS_NO_ERROR \<notin> set xs"
  shows "min_nonzero_code xs = (if xs = [] then 0 else Min (exit_code ` set xs))"
proof (cases xs)
  case Nil
  then show ?thesis by (simp add: min_nonzero_code_def)
next
  case (Cons x ys)
  have "Min (set (exit_code x # map exit_code ys)) = fold min (map exit_code ys) (exit_code x)"
    by (rule Min.set_eq_fold)
  then show ?thesis
    using filter_nonzero_codes [OF assms] by (simp add: min_nonzero_code_def Cons)
qed

text \<open>
  C6 (amended). Starting from the initial stored status 0, a sequence of calls of
  \<open>set_exit_status\<close> with error statuses only (none of them
  \<open>WG_EXIT_STATUS_NO_ERROR\<close>) leaves the stored status equal to the smallest code of
  the sequence, 0 for the empty sequence; the result depends on the set of codes only,
  not on their order. A call with \<open>WG_EXIT_STATUS_NO_ERROR\<close> on a stored status that is
  not negative stores 0 again, which is how \<open>main\<close> clears the provisional
  \<open>WG_EXIT_STATUS_PARSE_INIT\<close> after a successful \<open>init\<close>.
\<close>

theorem set_exit_status_min_of_errors:
  "(WG_EXIT_STATUS_NO_ERROR \<notin> set xs \<longrightarrow>
      exit_status_after xs = min_nonzero_code xs \<and>
      exit_status_after xs = (if xs = [] then 0 else Min (exit_code ` set xs))) \<and>
   (0 \<le> s \<longrightarrow> set_exit_status WG_EXIT_STATUS_NO_ERROR s = 0)"
  using exit_status_after_errors [of xs] min_nonzero_code_errors [of xs]
  by (simp add: set_exit_status_def)

theorem set_exit_status_min_of_errors_witness:
  "WG_EXIT_STATUS_NO_ERROR \<notin> set [WG_EXIT_STATUS_REMOTE, WG_EXIT_STATUS_IO, WG_EXIT_STATUS_AUTH] \<and>
   exit_status_after [WG_EXIT_STATUS_REMOTE, WG_EXIT_STATUS_IO, WG_EXIT_STATUS_AUTH] = 3 \<and>
   min_nonzero_code [WG_EXIT_STATUS_REMOTE, WG_EXIT_STATUS_IO, WG_EXIT_STATUS_AUTH] = 3 \<and>
   (0::int) \<le> 2 \<and> set_exit_status WG_EXIT_STATUS_NO_ERROR 2 = 0"
  using set_exit_status_min_of_errors
    [of "[WG_EXIT_STATUS_REMOTE, WG_EXIT_STATUS_IO, WG_EXIT_STATUS_AUTH]" 2]
  by simp

text \<open>
  C6 as stated fails: after \<open>WG_EXIT_STATUS_PARSE_INIT\<close> (2) and then
  \<open>WG_EXIT_STATUS_NO_ERROR\<close> (0), the order in which \<open>main\<close> calls
  \<open>set_exit_status\<close> around \<open>init\<close>, the stored status is 0 although the nonzero code 2
  was set.
\<close>

theorem set_exit_status_counterexample:
  "exit_status_after [WG_EXIT_STATUS_PARSE_INIT, WG_EXIT_STATUS_NO_ERROR] = 0 \<and>
   min_nonzero_code [WG_EXIT_STATUS_PARSE_INIT, WG_EXIT_STATUS_NO_ERROR] = 2"
  by (simp add: exit_status_after_def set_exit_status_def min_nonzero_code_def)

section \<open>Properties of the comparison and of \<open>parse_bool\<close>\<close>

lemma wget_strcasecmp_ascii_zero_iff:
  "wget_strcasecmp_ascii a b = 0 \<longleftrightarrow> map c_tolower a = map c_tolower b"
  by (induction a b rule: wget_strcasecmp_ascii.induct) auto

lemma c_tolower_digit_one: "c_tolower c = CHR ''1'' \<longleftrightarrow> c = CHR ''1''"
  by (auto simp: c_tolower_def split: option.splits if_splits)

lemma c_tolower_digit_zero: "c_tolower c = CHR ''0'' \<longleftrightarrow> c = CHR ''0''"
  by (auto simp: c_tolower_def split: option.splits if_splits)

lemma lowered_is_one: "map c_tolower v = ''1'' \<longleftrightarrow> v = ''1''"
  by (cases v) (auto simp: c_tolower_digit_one)

lemma lowered_is_zero: "map c_tolower v = ''0'' \<longleftrightarrow> v = ''0''"
  by (cases v) (auto simp: c_tolower_digit_zero)

lemma lowered_literals:
  "map c_tolower ''y'' = ''y''" "map c_tolower ''yes'' = ''yes''" "map c_tolower ''on'' = ''on''"
  "map c_tolower ''n'' = ''n''" "map c_tolower ''no'' = ''no''" "map c_tolower ''off'' = ''off''"
  "map c_tolower ''digest'' = ''digest''" "map c_tolower ''basic'' = ''basic''"
  by (simp_all add: c_tolower_def)

lemma parse_bool_unrecognized:
  assumes "map c_tolower v \<notin> set [''1'', ''y'', ''yes'', ''on'', [], ''0'', ''n'', ''no'', ''off'']"
  shows "parse_bool (Some cur) (Some v) invert = (- 1, Some cur, [Invalid_boolean_value v])"
proof -
  have "v \<noteq> ''1''" "v \<noteq> []" "v \<noteq> ''0''"
    using assms lowered_is_one [of v] lowered_is_zero [of v] by auto
  moreover have "wget_strcasecmp_ascii v ''y'' \<noteq> 0" "wget_strcasecmp_ascii v ''yes'' \<noteq> 0"
    "wget_strcasecmp_ascii v ''on'' \<noteq> 0" "wget_strcasecmp_ascii v ''n'' \<noteq> 0"
    "wget_strcasecmp_ascii v ''no'' \<noteq> 0" "wget_strcasecmp_ascii v ''off'' \<noteq> 0"
    using assms unfolding wget_strcasecmp_ascii_zero_iff lowered_literals by simp_all
  ultimately show ?thesis
    by (simp add: parse_bool_def)
qed

lemma parse_bool_false_words:
  "parse_bool (Some cur) (Some []) invert = (0, Some invert, [])"
  "parse_bool (Some cur) (Some ''0'') invert = (0, Some invert, [])"
  "parse_bool (Some cur) (Some ''no'') invert = (0, Some invert, [])"
  "parse_bool (Some cur) (Some ''off'') invert = (0, Some invert, [])"
  by (simp_all add: parse_bool_def c_tolower_def)

text \<open>
  C10 (amended). For a boolean option that has a variable (\<open>opt->var\<close> is not NULL), the
  empty value string is accepted and stores what \<open>0\<close>, \<open>no\<close> and \<open>off\<close> store: false, or
  true under the \<open>no-\<close> inversion; a value that is, up to ASCII case, none of
  \<open>1 y yes on 0 n no off\<close> and not empty is diagnosed as an invalid boolean value, the
  call returns \<open>-1\<close> and the variable keeps its value. For a boolean option without a
  variable (the do-nothing option \<open>iri\<close>) every value is accepted: the call returns 0 and
  prints nothing.
\<close>

theorem parse_bool_empty_and_invalid:
  "parse_bool (Some cur) (Some []) invert = (0, Some invert, []) \<and>
   parse_bool (Some cur) (Some []) invert = parse_bool (Some cur) (Some ''0'') invert \<and>
   parse_bool (Some cur) (Some []) invert = parse_bool (Some cur) (Some ''no'') invert \<and>
   parse_bool (Some cur) (Some []) invert = parse_bool (Some cur) (Some ''off'') invert \<and>
   (map c_tolower v \<notin> set [''1'', ''y'', ''yes'', ''on'', [], ''0'', ''n'', ''no'', ''off''] \<longrightarrow>
      parse_bool (Some cur) (Some v) invert = (- 1, Some cur, [Invalid_boolean_value v])) \<and>
   parse_bool None val invert = (0, None, [])"
proof -
  have "parse_bool None val invert = (0, None, [])"
    by (simp add: parse_bool_def)
  then show ?thesis
    using parse_bool_unrecognized [of v cur invert]
    by (simp only: parse_bool_false_words) simp
qed

theorem parse_bool_empty_and_invalid_witness:
  "map c_tolower ''maybe'' \<notin> set [''1'', ''y'', ''yes'', ''on'', [], ''0'', ''n'', ''no'', ''off''] \<and>
   parse_bool (Some True) (Some ''maybe'') False = (- 1, Some True, [Invalid_boolean_value ''maybe'']) \<and>
   parse_bool (Some True) (Some []) False = (0, Some False, []) \<and>
   parse_bool (Some False) (Some []) True = (0, Some True, [])"
  using parse_bool_empty_and_invalid [of True False "''maybe''" None]
    parse_bool_empty_and_invalid [of False True "''maybe''" None]
  by (simp add: c_tolower_def)

text \<open>
  C10 as stated fails for the boolean option \<open>iri\<close>, whose \<open>var\<close> is NULL: the value
  \<open>maybe\<close>, which is no boolean word, is accepted without a diagnostic.
\<close>

theorem parse_bool_counterexample:
  "map c_tolower ''maybe'' \<notin> set [''1'', ''y'', ''yes'', ''on'', [], ''0'', ''n'', ''no'', ''off''] \<and>
   parse_bool None (Some ''maybe'') False = (0, None, [])"
  by (simp add: parse_bool_def c_tolower_def)

section \<open>Properties of the challenge selection\<close>

lemma digest_is_not_basic:
  "wget_strcasecmp_ascii s ''digest'' = 0 \<Longrightarrow> wget_strcasecmp_ascii s ''basic'' \<noteq> 0"
  by (simp add: wget_strcasecmp_ascii_zero_iff lowered_literals)

text \<open>
  What the loop computes: the first challenge whose scheme is not \<open>digest\<close>, whatever
  that scheme is; a \<open>digest\<close> challenge only when the vector holds nothing else.
\<close>

lemma select_challenge_result:
  "select_challenge cs selected =
     (case find (\<lambda>c. wget_strcasecmp_ascii (auth_scheme c) ''digest'' \<noteq> 0) cs of
        Some c \<Rightarrow> Some c
      | None \<Rightarrow> (if selected \<noteq> None then selected
                 else case cs of [] \<Rightarrow> None | c # _ \<Rightarrow> Some c))"
proof (induction cs arbitrary: selected)
  case Nil
  then show ?case by simp
next
  case (Cons c cs)
  show ?case
  proof (cases "wget_strcasecmp_ascii (auth_scheme c) ''digest'' = 0")
    case True
    then show ?thesis
      using digest_is_not_basic [OF True]
      by (auto simp: Cons.IH split: option.splits)
  next
    case False
    then show ?thesis by simp
  qed
qed

text \<open>
  C1. The comment in the function says "Prefer 'Digest' over 'Basic'", and the claim
  says the same, but the tests on \<open>wget_strcasecmp_ascii\<close> lack the negation: a 401
  that offers Basic and Digest gets the Basic challenge answered, in either order of the
  two challenges.
\<close>

theorem add_authorize_header_selects_basic:
  "add_authorize_header
     [\<lparr>auth_scheme = ''Basic'', params = [(''realm'', ''r'')]\<rparr>,
      \<lparr>auth_scheme = ''Digest'', params = [(''realm'', ''r''), (''nonce'', ''n'')]\<rparr>]
     (Some ''user'') (Some ''secret'') False False None None =
     Some (\<lparr>auth_scheme = ''Basic'', params = [(''realm'', ''r'')]\<rparr>,
           Some ''user'', Some ''secret'', False) \<and>
   add_authorize_header
     [\<lparr>auth_scheme = ''Digest'', params = [(''realm'', ''r''), (''nonce'', ''n'')]\<rparr>,
      \<lparr>auth_scheme = ''Basic'', params = [(''realm'', ''r'')]\<rparr>]
     (Some ''user'') (Some ''secret'') False False None None =
     Some (\<lparr>auth_scheme = ''Basic'', params = [(''realm'', ''r'')]\<rparr>,
           Some ''user'', Some ''secret'', False)"
  by (simp add: add_authorize_header_def c_tolower_def)

section \<open>Properties of the pacing sleep\<close>

lemma c_rem_nonneg: "0 \<le> r \<Longrightarrow> 0 < w \<Longrightarrow> c_rem r w = r mod w"
  by (cases "r = 0") (simp_all add: c_rem_def)

lemma c_div_nonneg: "0 < w \<Longrightarrow> c_div w 2 = w div 2"
  by (simp add: c_div_def)

lemma wrap_int32_id: "- (2 ^ 31) \<le> x \<Longrightarrow> x < 2 ^ 31 \<Longrightarrow> wrap_int32 x = x"
  by (simp add: wrap_int32_def)

lemma pacing_sleep_value:
  assumes "0 < w" and "w \<le> 1431655765" and "0 \<le> r"
  shows "pacing_sleep w True r = Some (r mod w + w div 2)"
proof -
  have m: "0 \<le> r mod w" "r mod w < w"
    using assms(1) by simp_all
  have q: "2 * (w div 2) \<le> w" "0 \<le> w div 2"
    using assms(1) by simp_all
  have "- (2 ^ 31) \<le> r mod w + w div 2" and "r mod w + w div 2 < 2 ^ 31"
    using m q assms(2) by simp_all
  then have "wrap_int32 (r mod w + w div 2) = r mod w + w div 2"
    by (rule wrap_int32_id)
  then show ?thesis
    using assms by (simp add: pacing_sleep_def c_rem_nonneg c_div_nonneg)
qed

text \<open>
  C9 (amended). With \<open>config.wait = w > 0\<close> (small enough for the \<open>int\<close> sum,
  \<open>w \<le> 1431655765\<close> milliseconds) and \<open>random_wait\<close>, the sleep is
  \<open>rand() % w + w / 2\<close> in whole milliseconds for every draw of \<open>rand()\<close>: at least
  \<open>w / 2\<close> rounded down and at most \<open>w / 2 + w - 1\<close>, so above \<open>0.5 w - 1\<close> and
  below \<open>1.5 w\<close>. It is at least \<open>0.5 w\<close> when \<open>w\<close> is even.
\<close>

theorem pacing_sleep_bounds:
  assumes "0 < w" and "w \<le> 1431655765" and "0 \<le> r"
  shows "\<exists>s. pacing_sleep w True r = Some s \<and>
           w div 2 \<le> s \<and> s \<le> w div 2 + w - 1 \<and>
           w - 1 \<le> 2 * s \<and> 2 * s < 3 * w \<and>
           (even w \<longrightarrow> w \<le> 2 * s)"
proof -
  define a where "a = r mod w"
  define q where "q = w div 2"
  have m: "0 \<le> a" "a < w"
    using assms(1) by (simp_all add: a_def)
  have qf: "2 * q \<le> w" "w \<le> 2 * q + 1"
    by (simp_all add: q_def)
  have e: "even w \<longrightarrow> w = 2 * q"
    by (auto simp: q_def)
  have v: "pacing_sleep w True r = Some (a + q)"
    using pacing_sleep_value [OF assms] by (simp add: a_def q_def)
  have "q \<le> a + q" "a + q \<le> q + w - 1" "w - 1 \<le> 2 * (a + q)" "2 * (a + q) < 3 * w"
    using m qf by simp_all
  moreover have "even w \<longrightarrow> w \<le> 2 * (a + q)"
    using m e by auto
  ultimately have "pacing_sleep w True r = Some (a + q) \<and>
      q \<le> a + q \<and> a + q \<le> q + w - 1 \<and> w - 1 \<le> 2 * (a + q) \<and>
      2 * (a + q) < 3 * w \<and> (even w \<longrightarrow> w \<le> 2 * (a + q))"
    using v by blast
  then show ?thesis
    unfolding q_def by (rule exI)
qed

theorem pacing_sleep_bounds_witness:
  "(0::int) < 1000 \<and> (1000::int) \<le> 1431655765 \<and> (0::int) \<le> 12345 \<and>
   pacing_sleep 1000 True 12345 = Some 845"
proof -
  have h: "(0::int) < 1000" "(1000::int) \<le> 1431655765" "(0::int) \<le> 12345"
    by simp_all
  have v: "pacing_sleep 1000 True 12345 = Some 845"
    by (simp add: pacing_sleep_def c_rem_def c_div_def wrap_int32_def)
  from pacing_sleep_bounds [OF h] v show ?thesis
    by simp
qed

text \<open>
  C9 as stated fails for an odd wait: with \<open>config.wait = 5\<close> (\<open>--wait=0.005\<close>) and the
  draw \<open>rand() = 0\<close> the sleep is 2 milliseconds, less than half of 5.
\<close>

theorem pacing_sleep_counterexample:
  "pacing_sleep 5 True 0 = Some 2 \<and> \<not> (5 \<le> 2 * (2::int))"
  by (simp add: pacing_sleep_def c_rem_def c_div_def wrap_int32_def)

section \<open>Properties of \<open>add_url\<close>: the redirect limit\<close>

lemma add_url_new_job_redirection:
  "URL_FLG_REDIRECTION \<in> flags \<Longrightarrow>
     redirection_level (add_url_new_job cfg h (Some j) flags i v) = redirection_level j + 1 \<and>
     original_url (add_url_new_job cfg h (Some j) flags i v) = Some (iri j)"
  by (simp add: add_url_new_job_def Let_def job_init_def)

lemma add_url_filtered_queue:
  "queue (add_url_filtered cfg h job flags i v st) = queue st \<or>
   queue (add_url_filtered cfg h job flags i v st)
     = queue st @ [add_url_new_job cfg h job flags i v]"
  by (simp add: add_url_filtered_def)

lemma add_url_host_queue:
  "queue (add_url_host cfg h job flags i v st) = queue st \<or>
   queue (add_url_host cfg h job flags i v st)
     = queue st @ [add_url_new_job cfg h job flags i v]"
proof (cases "host_registry h i")
  case Host_new
  let ?r = "wget_iri_parse_base h i ''/robots.txt''"
  have a: "queue (st\<lparr>robot_jobs := robot_jobs st @ [?r]\<rparr>) = queue st"
    and b: "queue (st\<lparr>blacklist := insert (uri ?r) (blacklist st)\<rparr>) = queue st"
    and c: "queue (st\<lparr>blacklist := insert (uri ?r) (blacklist st),
                      robot_jobs := robot_jobs st @ [?r]\<rparr>) = queue st"
    by simp_all
  show ?thesis
    using add_url_filtered_queue [of cfg h job flags i v st]
      add_url_filtered_queue [of cfg h job flags i v
        "st\<lparr>blacklist := insert (uri ?r) (blacklist st),
            robot_jobs := robot_jobs st @ [?r]\<rparr>"]
    by (simp add: add_url_host_def Host_new blacklist_add_def Let_def c)
next
  case (Host_known ps)
  show ?thesis
    using add_url_filtered_queue [of cfg h job flags i v st]
    by (simp add: add_url_host_def Host_known)
next
  case Host_missing
  then show ?thesis by (simp add: add_url_host_def)
qed

lemma add_url_locked_queue:
  "queue (add_url_locked cfg h job url flags i v st) = queue st \<or>
   queue (add_url_locked cfg h job url flags i v st)
     = queue st @ [add_url_new_job cfg h job flags i v]"
proof (cases "uri i \<in> blacklist st")
  case True
  then show ?thesis by (simp add: add_url_locked_def blacklist_add_def)
next
  case False
  let ?st = "st\<lparr>blacklist := insert (uri i) (blacklist st)\<rparr>"
  have q: "queue ?st = queue st" "parents ?st = parents st"
    by simp_all
  have "add_url_locked cfg h job url flags i v st = add_url_host cfg h job flags i v ?st
      \<or> queue (add_url_locked cfg h job url flags i v st) = queue st"
    using False
    by (cases "if recursive cfg then host_reason cfg h i else None")
       (simp_all add: add_url_locked_def blacklist_add_def)
  then show ?thesis
    using add_url_host_queue [of cfg h job flags i v ?st] q(1) by auto
qed

lemma add_url_parsed_queue:
  "queue (add_url_parsed cfg h job url flags st) = queue st \<or>
   (\<exists>i v. queue (add_url_parsed cfg h job url flags st)
            = queue st @ [add_url_new_job cfg h job flags i v])"
proof (cases "wget_iri_parse h
        (if cut_url_get_vars cfg then takeWhile (\<lambda>c. c \<noteq> CHR ''?'') url else url)")
  case None
  then show ?thesis by (simp add: add_url_parsed_def)
next
  case (Some i)
  define v where "v = plugin_db_forward_url h i"
  define i' where "i' = (case alt_iri v of None \<Rightarrow> i | Some a \<Rightarrow> a)"
  have "add_url_parsed cfg h job url flags st = st
      \<or> queue (add_url_parsed cfg h job url flags st) = queue st
      \<or> add_url_parsed cfg h job url flags st
          = add_url_locked cfg h job url flags i' (v\<lparr>alt_iri := None\<rparr>) st"
    using Some by (simp add: add_url_parsed_def Let_def v_def i'_def)
  then show ?thesis
    using add_url_locked_queue [of cfg h job url flags i' "v\<lparr>alt_iri := None\<rparr>" st]
    by metis
qed

text \<open>
  C2 (amended). For a URL added as a redirect: with \<open>config.max_redirect = 0\<close> the limit
  is off, the depth of the redirect chain never stops \<open>add_url\<close> and the URL goes through
  the checks that every URL goes through. With \<open>config.max_redirect\<close> not 0 (20 unless
  configured), a redirect of a job whose \<open>redirection_level\<close> has reached
  \<open>max_redirect\<close> is dropped: \<open>add_url\<close> returns at once and leaves the state as it is,
  so no job is enqueued and no message is printed; below the limit the URL goes through
  the checks. A successor job that the checks let through is appended to the queue with
  the \<open>redirection_level\<close> of its predecessor plus 1.
\<close>

theorem add_url_redirect_limit:
  assumes "URL_FLG_REDIRECTION \<in> flags"
  shows "(max_redirect cfg = 0 \<longrightarrow>
            add_url cfg h job url flags st = add_url_parsed cfg h job url flags st) \<and>
         (max_redirect cfg \<noteq> 0 \<and> max_redirect cfg \<le> redirection_level j \<longrightarrow>
            add_url cfg h (Some j) url flags st = st) \<and>
         (redirection_level j < max_redirect cfg \<longrightarrow>
            add_url cfg h (Some j) url flags st = add_url_parsed cfg h (Some j) url flags st) \<and>
         (queue (add_url_parsed cfg h (Some j) url flags st) = queue st \<or>
          (\<exists>new_job. queue (add_url_parsed cfg h (Some j) url flags st) = queue st @ [new_job] \<and>
             redirection_level new_job = redirection_level j + 1 \<and>
             original_url new_job = Some (iri j)))"
proof -
  have "queue (add_url_parsed cfg h (Some j) url flags st) = queue st \<or>
        (\<exists>new_job. queue (add_url_parsed cfg h (Some j) url flags st) = queue st @ [new_job] \<and>
           redirection_level new_job = redirection_level j + 1 \<and>
           original_url new_job = Some (iri j))"
    using add_url_parsed_queue [of cfg h "Some j" url flags st]
      add_url_new_job_redirection [OF assms, of cfg h j]
    by blast
  then show ?thesis
    using assms by (simp add: add_url_def)
qed

theorem add_url_redirect_limit_witness:
  "URL_FLG_REDIRECTION \<in> {URL_FLG_REDIRECTION} \<and>
   max_redirect config_defaults \<noteq> 0 \<and>
   max_redirect config_defaults \<le> redirection_level (example_job\<lparr>redirection_level := 20\<rparr>) \<and>
   add_url config_defaults example_helpers (Some (example_job\<lparr>redirection_level := 20\<rparr>))
     ''http://h/b'' {URL_FLG_REDIRECTION} example_engine = example_engine \<and>
   redirection_level (example_job\<lparr>redirection_level := 19\<rparr>) < max_redirect config_defaults \<and>
   map redirection_level
     (queue (add_url config_defaults example_helpers
               (Some (example_job\<lparr>redirection_level := 19\<rparr>))
               ''http://h/b'' {URL_FLG_REDIRECTION} example_engine)) = [20]"
proof -
  have f: "URL_FLG_REDIRECTION \<in> {URL_FLG_REDIRECTION}"
    by simp
  have "map redirection_level
     (queue (add_url_parsed config_defaults example_helpers
               (Some (example_job\<lparr>redirection_level := 19\<rparr>))
               ''http://h/b'' {URL_FLG_REDIRECTION} example_engine)) = [20]"
    by (simp add: add_url_parsed_def add_url_locked_def add_url_host_def add_url_filtered_def
        add_url_new_job_def blacklist_add_def
        job_init_def config_defaults_def example_helpers_def example_job_def example_iri_def
        example_engine_def engine_start_def Let_def)
  then show ?thesis
    using add_url_redirect_limit [OF f, of config_defaults example_helpers "Some example_job"
        "''http://h/b''" example_engine "example_job\<lparr>redirection_level := 20\<rparr>"]
      add_url_redirect_limit [OF f, of config_defaults example_helpers "Some example_job"
        "''http://h/b''" example_engine "example_job\<lparr>redirection_level := 19\<rparr>"]
    by (simp add: config_defaults_def)
qed

text \<open>
  C2 as stated fails: with \<open>config.max_redirect = 0\<close>, a job at \<open>redirection_level\<close> 0
  that gets a 301 with \<open>Location: /b\<close> has its successor for \<open>http://h/b\<close> enqueued at
  \<open>redirection_level\<close> 1, and nothing is printed.
\<close>

theorem max_redirect_zero_counterexample:
  "max_redirect (config_defaults\<lparr>max_redirect := 0\<rparr>) = 0 \<and>
   redirection_level example_job = 0 \<and>
   map (uri \<circ> iri)
     (queue (snd (snd (snd (process_response_header (config_defaults\<lparr>max_redirect := 0\<rparr>)
        example_helpers ((example_response 301)\<lparr>location := Some ''/b''\<rparr>)
        example_job example_engine)))))
     = [''http://h/b''] \<and>
   map redirection_level
     (queue (snd (snd (snd (process_response_header (config_defaults\<lparr>max_redirect := 0\<rparr>)
        example_helpers ((example_response 301)\<lparr>location := Some ''/b''\<rparr>)
        example_job example_engine)))))
     = [1] \<and>
   messages (snd (snd (snd (process_response_header (config_defaults\<lparr>max_redirect := 0\<rparr>)
        example_helpers ((example_response 301)\<lparr>location := Some ''/b''\<rparr>)
        example_job example_engine)))) = []"
  by (simp add: process_response_header_def add_url_def add_url_parsed_def add_url_locked_def
      add_url_host_def add_url_filtered_def add_url_new_job_def blacklist_add_def job_init_def
      config_defaults_def example_helpers_def example_job_def example_iri_def
      example_engine_def engine_start_def example_response_def c_div_def Let_def)

section \<open>Properties of the response handling: authentication and host failures\<close>










section \<open>Properties of the chunked download\<close>



























section \<open>Properties of the configuration loader\<close>

declare read_config_file.simps [simp del]

lemma read_config_invariants:
  "fst (snd (read_config_file env lvl cfgfile expand)) = lvl \<and>
   (\<forall>p l. Reading p l \<in> set (snd (snd (read_config_file env lvl cfgfile expand))) \<longrightarrow>
      lvl < l \<and> l \<le> 20)"
  "fst (snd (read_config_globbed env lvl ps)) = lvl \<and>
   (\<forall>p l. Reading p l \<in> set (snd (snd (read_config_globbed env lvl ps))) \<longrightarrow>
      lvl < l \<and> l \<le> 20)"
  "fst (snd (read_config_lines env lvl ls)) = lvl \<and>
   (\<forall>p l. Reading p l \<in> set (snd (snd (read_config_lines env lvl ls))) \<longrightarrow>
      lvl < l \<and> l \<le> 20)"
proof (induction env lvl cfgfile expand and env lvl ps and env lvl ls
    rule: read_config_file_read_config_globbed_read_config_lines.induct)
  case (1 env lvl cfgfile expand)
  show ?case
  proof (cases "lvl + 1 > 20")
    case True
    then show ?thesis by (subst (1 2) read_config_file.simps) simp
  next
    case False
    note F = False
    show ?thesis
    proof (cases expand)
      case True
      show ?thesis
      proof (cases "glob env cfgfile")
        case None
        obtain ret lvl' evs where r:
          "read_config_file env (lvl + 1) cfgfile False = (ret, lvl', evs)"
          by (cases "read_config_file env (lvl + 1) cfgfile False") auto
        have eq: "read_config_file env lvl cfgfile expand = (ret, lvl' - 1, evs)"
          using F True None r by (subst read_config_file.simps) simp
        have "lvl' = lvl + 1"
          and "\<forall>p l. Reading p l \<in> set evs \<longrightarrow> lvl + 1 < l \<and> l \<le> 20"
          using "1.IH"(1) [OF F True None] r by simp_all
        then show ?thesis
          unfolding eq by fastforce
      next
        case (Some paths)
        obtain ret lvl' evs where r:
          "read_config_globbed env (lvl + 1) paths = (ret, lvl', evs)"
          by (cases "read_config_globbed env (lvl + 1) paths") auto
        have eq: "read_config_file env lvl cfgfile expand = (ret, lvl' - 1, evs)"
          using F True Some r by (subst read_config_file.simps) simp
        have "lvl' = lvl + 1"
          and "\<forall>p l. Reading p l \<in> set evs \<longrightarrow> lvl + 1 < l \<and> l \<le> 20"
          using "1.IH"(2) [OF F True Some] r by simp_all
        then show ?thesis
          unfolding eq by fastforce
      qed
    next
      case False
      show ?thesis
      proof (cases "fopen env cfgfile")
        case None
        then show ?thesis
          using F False by (subst (1 2) read_config_file.simps) simp
      next
        case (Some f)
        obtain ret lvl' evs where r:
          "read_config_lines env (lvl + 1) (file_lines f) = (ret, lvl', evs)"
          by (cases "read_config_lines env (lvl + 1) (file_lines f)") auto
        have ih: "lvl' = lvl + 1"
          "\<forall>p l. Reading p l \<in> set evs \<longrightarrow> lvl + 1 < l \<and> l \<le> 20"
          using "1.IH"(3) [OF F False Some] r by simp_all
        have eq: "read_config_file env lvl cfgfile expand =
            (if ret = 0 \<and> unfinished_line f
             then (- 4, lvl' - 1,
                   Reading cfgfile (lvl + 1) # evs @ [Failed_to_parse_last_line cfgfile])
             else (ret, lvl' - 1, Reading cfgfile (lvl + 1) # evs))"
          using F False Some r by (subst read_config_file.simps) simp
        have lev: "fst (snd (read_config_file env lvl cfgfile expand)) = lvl"
          unfolding eq using ih(1) by simp
        have "set (snd (snd (read_config_file env lvl cfgfile expand)))
            \<subseteq> insert (Reading cfgfile (lvl + 1)) (set evs) \<union> {Failed_to_parse_last_line cfgfile}"
          unfolding eq by auto
        then have "\<forall>p l. Reading p l \<in> set (snd (snd (read_config_file env lvl cfgfile expand)))
            \<longrightarrow> lvl < l \<and> l \<le> 20"
          using ih(2) F by fastforce
        then show ?thesis
          using lev by simp
      qed
    qed
  qed
next
  case (2 env lvl)
  then show ?case by simp
next
  case (3 env lvl p ps)
  obtain ret lvl' evs where r:
    "(if p \<noteq> [] \<and> last p = CHR ''/'' then (0, lvl, [])
      else read_config_file env lvl p False) = (ret, lvl', evs)"
    by (cases "if p \<noteq> [] \<and> last p = CHR ''/'' then (0, lvl, [])
      else read_config_file env lvl p False") auto
  have a: "lvl' = lvl \<and> (\<forall>q l. Reading q l \<in> set evs \<longrightarrow> lvl < l \<and> l \<le> 20)"
  proof (cases "p \<noteq> [] \<and> last p = CHR ''/''")
    case True
    then show ?thesis using r by auto
  next
    case False
    then have "read_config_file env lvl p False = (ret, lvl', evs)"
      using r by (auto split: if_splits)
    then show ?thesis
      using "3.IH"(1) [OF False] by simp
  qed
  show ?case
  proof (cases "ret = 0")
    case True
    obtain ret' lvl'' evs' where r': "read_config_globbed env lvl' ps = (ret', lvl'', evs')"
      by (cases "read_config_globbed env lvl' ps") auto
    have "lvl'' = lvl' \<and> (\<forall>q l. Reading q l \<in> set evs' \<longrightarrow> lvl' < l \<and> l \<le> 20)"
      using "3.IH"(2) [OF r [symmetric] refl True] r' by simp
    then show ?thesis
      using a r r' True by auto
  next
    case False
    then show ?thesis
      using a r by auto
  qed
next
  case (4 env lvl)
  then show ?case by simp
next
  case (5 env lvl l ls)
  define first where "first =
    (case l of
       Option_assignment name val \<Rightarrow>
         (let rc = set_long_option env name (Some val) True
          in (if rc < 0 then rc else 0, lvl, [Set_long_option name (Some val)]))
     | Statement name val \<Rightarrow>
         if name = ''include'' then read_config_file env lvl val True
         else
           (let rc = set_long_option env name None False
            in (if rc < 0 then rc else 0, lvl, [Set_long_option name None]))
     | Unparsed \<Rightarrow> (0, lvl, []))"
  obtain ret lvl' evs where r: "first = (ret, lvl', evs)"
    by (cases first) auto
  have a: "lvl' = lvl \<and> (\<forall>q k. Reading q k \<in> set evs \<longrightarrow> lvl < k \<and> k \<le> 20)"
  proof (cases l)
    case (Option_assignment name val)
    then show ?thesis using r by (auto simp: first_def Let_def)
  next
    case (Statement name val)
    show ?thesis
    proof (cases "name = ''include''")
      case True
      then show ?thesis
        using "5.IH"(1) [OF Statement True] r Statement by (simp add: first_def)
    next
      case False
      then show ?thesis using r Statement by (auto simp: first_def Let_def)
    qed
  next
    case Unparsed
    then show ?thesis using r by (auto simp: first_def)
  qed
  show ?case
  proof (cases "ret = 0")
    case True
    obtain ret' lvl'' evs' where r': "read_config_lines env lvl' ls = (ret', lvl'', evs')"
      by (cases "read_config_lines env lvl' ls") auto
    have "lvl'' = lvl' \<and> (\<forall>q k. Reading q k \<in> set evs' \<longrightarrow> lvl' < k \<and> k \<le> 20)"
      using "5.IH"(2) [OF r [unfolded first_def, symmetric] refl True] r' by simp
    then show ?thesis
      using a r r' True by (auto simp add: first_def [symmetric])
  next
    case False
    then show ?thesis
      using a r by (auto simp add: first_def [symmetric])
  qed
qed

lemma read_config_levels:
  "fst (snd (read_config env lvl files)) = lvl \<and>
   (\<forall>p l. Reading p l \<in> set (snd (snd (read_config env lvl files))) \<longrightarrow> lvl < l \<and> l \<le> 20)"
proof (induction files)
  case Nil
  then show ?case by simp
next
  case (Cons f files)
  obtain ret lvl' evs where r: "read_config_file env lvl f True = (ret, lvl', evs)"
    by (cases "read_config_file env lvl f True") auto
  have a: "lvl' = lvl" "\<forall>p l. Reading p l \<in> set evs \<longrightarrow> lvl < l \<and> l \<le> 20"
    using read_config_invariants(1) [of env lvl f True] r by simp_all
  obtain ret' lvl'' evs' where r': "read_config env lvl files = (ret', lvl'', evs')"
    by (cases "read_config env lvl files") auto
  have "lvl'' = lvl" "\<forall>p l. Reading p l \<in> set evs' \<longrightarrow> lvl < l \<and> l \<le> 20"
    using Cons.IH r' by simp_all
  then show ?case
    using a r r' by auto
qed

text \<open>
  C8. Loading configuration files terminates for every content of the files, cyclic
  includes too: \<open>read_config_file\<close>, the model of \<open>_read_config\<close>, is a total function;
  its recursion ends because \<open>level\<close> grows with every nested call and no call is made
  beyond 20. A call that finds \<open>level\<close> at 20 or more (the 21st nested call) is rejected:
  it returns \<open>-2\<close> with the message "Config file recursion detected", opens no file and
  leaves \<open>level\<close> as it was. Every call hands \<open>level\<close> back as it found it, and every
  file that is read is read at a \<open>level\<close> of at most 20, in a single call of
  \<open>_read_config\<close> and in a whole run of \<open>read_config\<close>. (The expansion of a path by
  \<open>glob\<close> and the reading of the file are two nested calls, so a file that includes
  itself is read 10 times before the include is rejected.)
\<close>

theorem read_config_depth_bounded:
  "(20 \<le> lvl \<longrightarrow>
      read_config_file env lvl cfgfile expand = (- 2, lvl, [Config_file_recursion cfgfile])) \<and>
   fst (snd (read_config_file env lvl cfgfile expand)) = lvl \<and>
   (\<forall>p l. Reading p l \<in> set (snd (snd (read_config_file env lvl cfgfile expand))) \<longrightarrow>
      lvl < l \<and> l \<le> 20) \<and>
   fst (snd (read_config env 0 files)) = 0 \<and>
   (\<forall>p l. Reading p l \<in> set (snd (snd (read_config env 0 files))) \<longrightarrow> l \<le> 20)"
proof -
  have "20 \<le> lvl \<longrightarrow>
      read_config_file env lvl cfgfile expand = (- 2, lvl, [Config_file_recursion cfgfile])"
    by (subst read_config_file.simps) simp
  then show ?thesis
    using read_config_invariants(1) [of env lvl cfgfile expand] read_config_levels [of env 0 files]
    by blast
qed

lemma example_config_run:
  "read_config example_config_env 0 [''a''] =
     (- 2, 0,
      [Reading ''a'' 2, Set_long_option ''quiet'' (Some ''on''),
       Reading ''a'' 4, Set_long_option ''quiet'' (Some ''on''),
       Reading ''a'' 6, Set_long_option ''quiet'' (Some ''on''),
       Reading ''a'' 8, Set_long_option ''quiet'' (Some ''on''),
       Reading ''a'' 10, Set_long_option ''quiet'' (Some ''on''),
       Reading ''a'' 12, Set_long_option ''quiet'' (Some ''on''),
       Reading ''a'' 14, Set_long_option ''quiet'' (Some ''on''),
       Reading ''a'' 16, Set_long_option ''quiet'' (Some ''on''),
       Reading ''a'' 18, Set_long_option ''quiet'' (Some ''on''),
       Reading ''a'' 20, Set_long_option ''quiet'' (Some ''on''),
       Config_file_recursion ''a''])"
  by (simp add: read_config_file.simps example_config_env_def)

theorem read_config_depth_bounded_witness:
  "(20::nat) \<le> 20 \<and>
   read_config_file example_config_env 20 ''a'' True = (- 2, 20, [Config_file_recursion ''a'']) \<and>
   read_config example_config_env 0 [''a''] =
     (- 2, 0,
      [Reading ''a'' 2, Set_long_option ''quiet'' (Some ''on''),
       Reading ''a'' 4, Set_long_option ''quiet'' (Some ''on''),
       Reading ''a'' 6, Set_long_option ''quiet'' (Some ''on''),
       Reading ''a'' 8, Set_long_option ''quiet'' (Some ''on''),
       Reading ''a'' 10, Set_long_option ''quiet'' (Some ''on''),
       Reading ''a'' 12, Set_long_option ''quiet'' (Some ''on''),
       Reading ''a'' 14, Set_long_option ''quiet'' (Some ''on''),
       Reading ''a'' 16, Set_long_option ''quiet'' (Some ''on''),
       Reading ''a'' 18, Set_long_option ''quiet'' (Some ''on''),
       Reading ''a'' 20, Set_long_option ''quiet'' (Some ''on''),
       Config_file_recursion ''a''])"
  using read_config_depth_bounded [of 20 example_config_env "''a''" True "[''a'']"]
  unfolding example_config_run by simp

end
